theory Spec2Isabelle
  imports Main
begin

section \<open>Data model\<close>

text \<open>
  The appointment registry of \<^verbatim>\<open>index.js\<close>: a fixed catalog of doctors and a mutable
  array of appointments, read and written by five route handlers.

  A JavaScript string is modelled by the list of its code units, each a \<^typ>\<open>char\<close>
  (code units below 256). A field of a request body is a \<^typ>\<open>string option\<close>:
  \<open>None\<close> is a field that is absent from the body or null, \<open>Some s\<close> a field that carries
  the string \<open>s\<close>, which may be empty. The field \<open>id\<close> of an appointment is
  \<open>id_num\<close> here.
\<close>

record patient =
  firstName :: string
  lastName :: string
  email :: string

record appointment =
  patient :: patient
  timeSlot :: string
  doctorName :: string
  id_num :: nat

record doctor =
  name :: string
  slots :: "string list"

definition doctors :: "doctor list" where
  "doctors =
    [\<lparr>name = ''Dr. Smith'',
      slots = [''9:00 AM - 10:00 AM'', ''10:00 AM - 11:00 AM'', ''2:00 PM - 3:00 PM'']\<rparr>,
     \<lparr>name = ''Dr. Johnson'',
      slots = [''11:00 AM - 12:00 PM'', ''1:00 PM - 2:00 PM'', ''3:00 PM - 4:00 PM'']\<rparr>]"

text \<open>
  What a handler sends: the HTTP status and the JSON body. \<open>Uncaught\<close> is the reply of
  the framework's error handler when the handler throws.
\<close>

datatype body =
    Error string
  | Appt appointment
  | Appts "appointment list"
  | Message string
  | Uncaught string

type_synonym response = "nat \<times> body"

section \<open>Request fields\<close>

text \<open>
  \<open>!field\<close> in the source is true of an absent field and of the empty string;
  \<open>truthy\<close> is its negation. \<open>str_of\<close> reads the string of a field; the handlers
  apply it only behind the \<open>truthy\<close> guard.
\<close>

fun truthy :: "string option \<Rightarrow> bool" where
  "truthy None = False"
| "truthy (Some s) = (s \<noteq> [])"

fun str_of :: "string option \<Rightarrow> string" where
  "str_of None = []"
| "str_of (Some s) = s"

section \<open>Email validation\<close>

text \<open>
  \<^verbatim>\<open>email.match(/^[^\s@]+@[^\s@]+\.[^\s@]+$/)\<close>. The matcher follows the pattern
  piece by piece, each piece taking the matcher of the rest of the pattern: a
  non-empty run of a character class tries every length, a literal takes one
  character, and \<open>$\<close> accepts only the end of the string. \<open>is_space\<close> is the class
  \<open>\s\<close> on code units below 256: tab, line feed, vertical tab, form feed, carriage
  return, space and no-break space.
\<close>

definition is_space :: "char \<Rightarrow> bool" where
  "is_space c =
    (c \<in> set [CHR 0x09, CHR 0x0A, CHR 0x0B, CHR 0x0C, CHR 0x0D, CHR 0x20, CHR 0xA0])"

definition not_space_at :: "char \<Rightarrow> bool" where
  "not_space_at c = (\<not> is_space c \<and> c \<noteq> CHR ''@'')"

fun match_plus :: "(char \<Rightarrow> bool) \<Rightarrow> (string \<Rightarrow> bool) \<Rightarrow> string \<Rightarrow> bool" where
  "match_plus p k [] = False"
| "match_plus p k (c # cs) = (p c \<and> (match_plus p k cs \<or> k cs))"

fun match_char :: "char \<Rightarrow> (string \<Rightarrow> bool) \<Rightarrow> string \<Rightarrow> bool" where
  "match_char x k [] = False"
| "match_char x k (c # cs) = (c = x \<and> k cs)"

definition match_end :: "string \<Rightarrow> bool" where
  "match_end s = (s = [])"

definition isValidEmail :: "string \<Rightarrow> bool" where
  "isValidEmail e =
    match_plus not_space_at
      (match_char (CHR ''@'')
        (match_plus not_space_at
          (match_char (CHR ''.'')
            (match_plus not_space_at match_end)))) e"

section \<open>Array lookups\<close>

text \<open>
  \<open>Array.prototype.findIndex\<close>: the position of the first element that satisfies the
  predicate, \<open>None\<close> where the source gets \<open>-1\<close>. \<open>Array.prototype.find\<close> is
  \<^const>\<open>find\<close> of the list library.
\<close>

fun findIndex :: "('a \<Rightarrow> bool) \<Rightarrow> 'a list \<Rightarrow> nat option" where
  "findIndex P [] = None"
| "findIndex P (x # xs) = (if P x then Some 0 else map_option Suc (findIndex P xs))"

text \<open>
  \<open>findAppointment\<close> returns a reference to an element of the array, which \<open>modify\<close>
  then writes through. The reference is modelled by the element's position.
\<close>

definition findAppointment :: "string \<Rightarrow> string option \<Rightarrow> appointment list \<Rightarrow> nat option" where
  "findAppointment em ts appointments =
    findIndex (\<lambda>apt. email (patient apt) = em \<and> (\<not> truthy ts \<or> timeSlot apt = str_of ts))
      appointments"

section \<open>The five handlers\<close>

text \<open>
  Each handler takes the fields of the request and the appointment array, and returns
  the response together with the array as the handler leaves it.
\<close>

text \<open>
  \<open>POST /api/appointments\<close>. The arguments \<open>fn\<close>, \<open>ln\<close>, \<open>em\<close>, \<open>ts\<close> and \<open>dn\<close>
  are the fields firstName, lastName, email, timeSlot and doctorName of the body.
\<close>

definition book ::
  "string option \<Rightarrow> string option \<Rightarrow> string option \<Rightarrow> string option \<Rightarrow> string option \<Rightarrow>
   appointment list \<Rightarrow> response \<times> appointment list" where
  "book fn ln em ts dn appointments =
    (if \<not> truthy fn \<or> \<not> truthy ln \<or> \<not> truthy em \<or> \<not> truthy ts \<or> \<not> truthy dn
     then ((400, Error ''All fields are required''), appointments)
     else if \<not> isValidEmail (str_of em)
     then ((400, Error ''Invalid email format''), appointments)
     else
       (case find (\<lambda>d. name d = str_of dn) doctors of
          None \<Rightarrow> ((404, Error ''Doctor not found''), appointments)
        | Some doc \<Rightarrow>
            if str_of ts \<notin> set (slots doc)
            then ((400, Error ''Invalid or unavailable time slot''), appointments)
            else
              (case find (\<lambda>apt. doctorName apt = str_of dn \<and> timeSlot apt = str_of ts)
                      appointments of
                 Some existingAppointment \<Rightarrow>
                   ((400, Error ''Time slot already booked''), appointments)
               | None \<Rightarrow>
                   (let apt = \<lparr>patient = \<lparr>firstName = str_of fn, lastName = str_of ln,
                                               email = str_of em\<rparr>,
                               timeSlot = str_of ts,
                               doctorName = str_of dn,
                               id_num = length appointments + 1\<rparr>
                    in ((201, Appt apt), appointments @ [apt])))))"

text \<open>\<open>GET /api/appointments/patient/:email\<close>\<close>

definition listByPatient :: "string \<Rightarrow> appointment list \<Rightarrow> response \<times> appointment list" where
  "listByPatient em appointments =
    (if \<not> isValidEmail em
     then ((400, Error ''Invalid email format''), appointments)
     else
       (let patientAppointments = filter (\<lambda>apt. email (patient apt) = em) appointments
        in if length patientAppointments = 0
           then ((404, Error ''No appointments found''), appointments)
           else ((200, Appts patientAppointments), appointments)))"

text \<open>\<open>GET /api/appointments/doctor/:doctorName\<close>\<close>

definition listByDoctor :: "string \<Rightarrow> appointment list \<Rightarrow> response \<times> appointment list" where
  "listByDoctor dn appointments =
    (case find (\<lambda>d. name d = dn) doctors of
       None \<Rightarrow> ((404, Error ''Doctor not found''), appointments)
     | Some doc \<Rightarrow>
         ((200, Appts (filter (\<lambda>apt. doctorName apt = dn) appointments)), appointments))"

text \<open>
  \<open>DELETE /api/appointments\<close>, with the fields email and timeSlot of the body;
  \<open>splice(i, 1)\<close> drops the element at position \<open>i\<close>.
\<close>

definition cancel ::
  "string option \<Rightarrow> string option \<Rightarrow> appointment list \<Rightarrow> response \<times> appointment list" where
  "cancel em ts appointments =
    (if \<not> truthy em \<or> \<not> truthy ts
     then ((400, Error ''Email and time slot are required''), appointments)
     else
       (case findIndex (\<lambda>apt. email (patient apt) = str_of em \<and> timeSlot apt = str_of ts)
               appointments of
          None \<Rightarrow> ((404, Error ''Appointment not found''), appointments)
        | Some appointmentIndex \<Rightarrow>
            ((200, Message ''Appointment cancelled successfully''),
             take appointmentIndex appointments @ drop (Suc appointmentIndex) appointments)))"

text \<open>
  \<open>PUT /api/appointments\<close>, with the fields email, originalTimeSlot and newTimeSlot of
  the body. When the located appointment names a doctor that is not in
  the catalog, \<open>doctor\<close> is undefined and \<open>doctor.slots\<close> throws a TypeError, which
  the framework answers with status 500.
\<close>

definition modify ::
  "string option \<Rightarrow> string option \<Rightarrow> string option \<Rightarrow> appointment list \<Rightarrow>
   response \<times> appointment list" where
  "modify em ots nts appointments =
    (if \<not> truthy em \<or> \<not> truthy ots \<or> \<not> truthy nts
     then ((400, Error ''All fields are required''), appointments)
     else
       (case findAppointment (str_of em) ots appointments of
          None \<Rightarrow> ((404, Error ''Original appointment not found''), appointments)
        | Some i \<Rightarrow>
            (let apt = appointments ! i in
             case find (\<lambda>d. name d = doctorName apt) doctors of
               None \<Rightarrow> ((500, Uncaught ''TypeError''), appointments)
             | Some doc \<Rightarrow>
                 if str_of nts \<notin> set (slots doc)
                 then ((400, Error ''Invalid or unavailable new time slot''), appointments)
                 else if list_ex (\<lambda>a. doctorName a = doctorName apt \<and> timeSlot a = str_of nts)
                           appointments
                 then ((400, Error ''New time slot is already booked''), appointments)
                 else
                   (let apt' = apt\<lparr>timeSlot := str_of nts\<rparr>
                    in ((200, Appt apt'), appointments[i := apt'])))))"

section \<open>Sequences of requests\<close>

datatype request =
    Book "string option" "string option" "string option" "string option" "string option"
  | ListByPatient string
  | ListByDoctor string
  | Cancel "string option" "string option"
  | Modify "string option" "string option" "string option"

fun handle :: "request \<Rightarrow> appointment list \<Rightarrow> response \<times> appointment list" where
  "handle (Book fn ln em ts dn) appointments = book fn ln em ts dn appointments"
| "handle (ListByPatient em) appointments = listByPatient em appointments"
| "handle (ListByDoctor dn) appointments = listByDoctor dn appointments"
| "handle (Cancel em ts) appointments = cancel em ts appointments"
| "handle (Modify em ots nts) appointments = modify em ots nts appointments"

text \<open>The array after a sequence of requests, served one after the other.\<close>

fun run :: "request list \<Rightarrow> appointment list \<Rightarrow> appointment list" where
  "run [] appointments = appointments"
| "run (r # rs) appointments = run rs (snd (handle r appointments))"

text \<open>The pair that must not be booked twice, and the slot being one of the doctor's.\<close>

definition slot_key :: "appointment \<Rightarrow> string \<times> string" where
  "slot_key apt = (doctorName apt, timeSlot apt)"

definition in_catalog :: "appointment \<Rightarrow> bool" where
  "in_catalog apt =
    (case find (\<lambda>d. name d = doctorName apt) doctors of
       None \<Rightarrow> False
     | Some doc \<Rightarrow> timeSlot apt \<in> set (slots doc))"

section \<open>Requests used as examples\<close>

text \<open>The bookings of the test suite.\<close>

abbreviation john_9 :: request where
  "john_9 \<equiv> Book (Some ''John'') (Some ''Doe'') (Some ''john@example.com'')
     (Some ''9:00 AM - 10:00 AM'') (Some ''Dr. Smith'')"

abbreviation jane_2 :: request where
  "jane_2 \<equiv> Book (Some ''Jane'') (Some ''Doe'') (Some ''jane@example.com'')
     (Some ''2:00 PM - 3:00 PM'') (Some ''Dr. Smith'')"

abbreviation jane_9 :: request where
  "jane_9 \<equiv> Book (Some ''Jane'') (Some ''Doe'') (Some ''jane@example.com'')
     (Some ''9:00 AM - 10:00 AM'') (Some ''Dr. Smith'')"

abbreviation jane_10 :: request where
  "jane_10 \<equiv> Book (Some ''Jane'') (Some ''Doe'') (Some ''jane@example.com'')
     (Some ''10:00 AM - 11:00 AM'') (Some ''Dr. Smith'')"

text \<open>A response that reports a failure: every status the handlers send other than 200 and 201.\<close>

definition is_error :: "response \<Rightarrow> bool" where
  "is_error r = (400 \<le> fst r)"

text \<open>
  The property that the handlers keep: no pair is booked twice, and every appointment
  holds a slot of its own doctor.
\<close>

definition store_ok :: "appointment list \<Rightarrow> bool" where
  "store_ok appointments = (distinct (map slot_key appointments) \<and> list_all in_catalog appointments)"


section \<open>Lookups\<close>

lemma findIndex_None: "findIndex P xs = None \<longleftrightarrow> (\<forall>x\<in>set xs. \<not> P x)"
  by (induction xs) auto

lemma findIndex_Some:
  "findIndex P xs = Some i \<Longrightarrow> i < length xs \<and> P (xs ! i) \<and> (\<forall>j<i. \<not> P (xs ! j))"
proof (induction xs arbitrary: i)
  case Nil
  then show ?case by simp
next
  case (Cons x xs)
  show ?case
  proof (cases "P x")
    case True
    with Cons.prems show ?thesis by simp
  next
    case False
    with Cons.prems obtain k where k: "findIndex P xs = Some k" and i: "i = Suc k"
      by auto
    from Cons.IH [OF k] False i show ?thesis
      by (auto simp: less_Suc_eq_0_disj)
  qed
qed

lemma find_None_keys:
  "find (\<lambda>apt. doctorName apt = d \<and> timeSlot apt = t) xs = None \<longleftrightarrow> (d, t) \<notin> set (map slot_key xs)"
  by (auto simp: find_None_iff slot_key_def)

lemma book_cases:
  "snd (book fn ln em ts dn xs) = xs \<or>
   (\<exists>apt. snd (book fn ln em ts dn xs) = xs @ [apt] \<and> in_catalog apt \<and> slot_key apt \<notin> set (map slot_key xs))"
  by (auto simp: book_def Let_def in_catalog_def find_None_keys slot_key_def split: option.splits)

lemma book_store_ok: "store_ok xs \<Longrightarrow> store_ok (snd (book fn ln em ts dn xs))"
  using book_cases [of fn ln em ts dn xs] by (auto simp: store_ok_def)

lemma distinct_remove_nth:
  "distinct ys \<Longrightarrow> distinct (take i ys @ drop (Suc i) ys)"
  using set_take_disj_set_drop_if_distinct [of ys i "Suc i"] by simp

lemma set_remove_nth: "set (take i ys @ drop (Suc i) ys) \<subseteq> set ys"
  by (auto dest: in_set_takeD in_set_dropD)

lemma remove_nth_store_ok:
  assumes "store_ok xs"
  shows "store_ok (take i xs @ drop (Suc i) xs)"
proof -
  from assms have "distinct (map slot_key xs)"
    by (simp add: store_ok_def)
  then have "distinct (take i (map slot_key xs) @ drop (Suc i) (map slot_key xs))"
    by (rule distinct_remove_nth)
  then have "distinct (map slot_key (take i xs @ drop (Suc i) xs))"
    by (simp add: take_map drop_map)
  moreover from assms set_remove_nth [of i xs]
  have "list_all in_catalog (take i xs @ drop (Suc i) xs)"
    unfolding store_ok_def list_all_iff by blast
  ultimately show ?thesis
    by (simp add: store_ok_def)
qed

lemma cancel_store_ok: "store_ok xs \<Longrightarrow> store_ok (snd (cancel em ts xs))"
  by (simp add: cancel_def remove_nth_store_ok split: option.splits)

lemma modify_unfold:
  assumes "truthy em" "truthy ots" "truthy nts"
    and "findAppointment (str_of em) ots xs = Some i"
    and "find (\<lambda>d. name d = doctorName (xs ! i)) doctors = Some doc"
    and "str_of nts \<in> set (slots doc)"
  shows "modify em ots nts xs =
    (if list_ex (\<lambda>a. doctorName a = doctorName (xs ! i) \<and> timeSlot a = str_of nts) xs
     then ((400, Error ''New time slot is already booked''), xs)
     else ((200, Appt ((xs ! i)\<lparr>timeSlot := str_of nts\<rparr>)),
           xs[i := (xs ! i)\<lparr>timeSlot := str_of nts\<rparr>]))"
  using assms by (simp add: modify_def Let_def)

lemma findAppointment_Some:
  assumes "findAppointment e ts xs = Some i"
  shows "i < length xs \<and> email (patient (xs ! i)) = e
    \<and> (truthy ts \<longrightarrow> timeSlot (xs ! i) = str_of ts)"
  using findIndex_Some [OF assms [unfolded findAppointment_def]] by auto

lemma modify_cases:
  "is_error (fst (modify em ots nts xs)) \<and> snd (modify em ots nts xs) = xs \<or>
   (\<exists>i doc. findAppointment (str_of em) ots xs = Some i
      \<and> truthy em \<and> truthy ots \<and> truthy nts
      \<and> find (\<lambda>d. name d = doctorName (xs ! i)) doctors = Some doc
      \<and> str_of nts \<in> set (slots doc)
      \<and> \<not> list_ex (\<lambda>a. doctorName a = doctorName (xs ! i) \<and> timeSlot a = str_of nts) xs
      \<and> modify em ots nts xs =
          ((200, Appt ((xs ! i)\<lparr>timeSlot := str_of nts\<rparr>)),
           xs[i := (xs ! i)\<lparr>timeSlot := str_of nts\<rparr>]))"
proof (cases "truthy em \<and> truthy ots \<and> truthy nts")
  case False
  then show ?thesis by (auto simp: modify_def is_error_def)
next
  case fields: True
  show ?thesis
  proof (cases "findAppointment (str_of em) ots xs")
    case None
    with fields show ?thesis by (simp add: modify_def is_error_def)
  next
    case (Some i)
    show ?thesis
    proof (cases "find (\<lambda>d. name d = doctorName (xs ! i)) doctors")
      case None
      with fields Some show ?thesis by (simp add: modify_def is_error_def)
    next
      case doc: (Some doc)
      show ?thesis
      proof (cases "str_of nts \<in> set (slots doc)")
        case False
        with fields Some doc show ?thesis by (simp add: modify_def is_error_def)
      next
        case True
        with fields Some doc show ?thesis
          by (simp add: modify_unfold is_error_def)
      qed
    qed
  qed
qed

lemma update_store_ok:
  assumes ok: "store_ok xs" and i: "i < length xs"
    and doc: "find (\<lambda>d. name d = doctorName (xs ! i)) doctors = Some doc"
    and slot: "t \<in> set (slots doc)"
    and free: "(doctorName (xs ! i), t) \<notin> set (map slot_key xs)"
  shows "store_ok (xs[i := (xs ! i)\<lparr>timeSlot := t\<rparr>])"
proof -
  let ?a = "(xs ! i)\<lparr>timeSlot := t\<rparr>"
  have key: "slot_key ?a = (doctorName (xs ! i), t)"
    by (simp add: slot_key_def)
  have "map slot_key (xs[i := ?a]) = (map slot_key xs)[i := slot_key ?a]"
    by (simp add: map_update)
  moreover from ok free key have "distinct ((map slot_key xs)[i := slot_key ?a])"
    by (simp add: store_ok_def distinct_list_update)
  ultimately have "distinct (map slot_key (xs[i := ?a]))"
    by simp
  moreover from doc slot have "in_catalog ?a"
    by (simp add: in_catalog_def)
  with ok have "list_all in_catalog (xs[i := ?a])"
    unfolding store_ok_def list_all_iff using set_update_subset_insert [of xs i ?a] by auto
  ultimately show ?thesis
    by (simp add: store_ok_def)
qed

lemma modify_store_ok:
  assumes "store_ok xs"
  shows "store_ok (snd (modify em ots nts xs))"
proof -
  from modify_cases [of em ots nts xs] show ?thesis
  proof
    assume "is_error (fst (modify em ots nts xs)) \<and> snd (modify em ots nts xs) = xs"
    with assms show ?thesis by simp
  next
    assume "\<exists>i doc. findAppointment (str_of em) ots xs = Some i
      \<and> truthy em \<and> truthy ots \<and> truthy nts
      \<and> find (\<lambda>d. name d = doctorName (xs ! i)) doctors = Some doc
      \<and> str_of nts \<in> set (slots doc)
      \<and> \<not> list_ex (\<lambda>a. doctorName a = doctorName (xs ! i) \<and> timeSlot a = str_of nts) xs
      \<and> modify em ots nts xs =
          ((200, Appt ((xs ! i)\<lparr>timeSlot := str_of nts\<rparr>)),
           xs[i := (xs ! i)\<lparr>timeSlot := str_of nts\<rparr>])"
    then obtain i doc where loc: "findAppointment (str_of em) ots xs = Some i"
      and doc: "find (\<lambda>d. name d = doctorName (xs ! i)) doctors = Some doc"
      and slot: "str_of nts \<in> set (slots doc)"
      and free: "\<not> list_ex (\<lambda>a. doctorName a = doctorName (xs ! i) \<and> timeSlot a = str_of nts) xs"
      and res: "snd (modify em ots nts xs) = xs[i := (xs ! i)\<lparr>timeSlot := str_of nts\<rparr>]"
      by auto
    from loc have i: "i < length xs"
      by (simp add: findAppointment_Some)
    from free have "(doctorName (xs ! i), str_of nts) \<notin> set (map slot_key xs)"
      by (auto simp: list_ex_iff slot_key_def)
    with assms i doc slot res show ?thesis
      by (simp add: update_store_ok)
  qed
qed

lemma handle_store_ok: "store_ok xs \<Longrightarrow> store_ok (snd (handle r xs))"
  by (cases r)
    (simp_all add: book_store_ok cancel_store_ok modify_store_ok listByPatient_def Let_def
       listByDoctor_def split: option.splits)

lemma run_store_ok: "store_ok xs \<Longrightarrow> store_ok (run rs xs)"
  by (induction rs arbitrary: xs) (simp_all add: handle_store_ok)

lemma reachable_store_ok: "store_ok (run rs [])"
  by (rule run_store_ok) (simp add: store_ok_def)


lemma list_ex_nth: "list_ex P xs \<longleftrightarrow> (\<exists>j<length xs. P (xs ! j))"
  unfolding list_ex_iff by (metis in_set_conv_nth)

section \<open>The catalog and the email pattern\<close>

text \<open>
  What the matcher accepts, read off the pattern: a local part, \<open>@\<close>, a domain, a dot
  and a last part, all three non-empty and free of white space and \<open>@\<close>.
\<close>

lemma match_plus_iff:
  "match_plus p k s \<longleftrightarrow> (\<exists>a r. s = a @ r \<and> a \<noteq> [] \<and> (\<forall>x\<in>set a. p x) \<and> k r)"
proof (induction s)
  case Nil
  then show ?case by simp
next
  case (Cons c cs)
  show ?case
  proof
    assume "match_plus p k (c # cs)"
    then have c: "p c" and rest: "match_plus p k cs \<or> k cs"
      by simp_all
    from rest show "\<exists>a r. c # cs = a @ r \<and> a \<noteq> [] \<and> (\<forall>x\<in>set a. p x) \<and> k r"
    proof
      assume "match_plus p k cs"
      with Cons.IH obtain a r where "cs = a @ r" "a \<noteq> []" "\<forall>x\<in>set a. p x" "k r"
        by blast
      with c have "c # cs = (c # a) @ r \<and> c # a \<noteq> [] \<and> (\<forall>x\<in>set (c # a). p x) \<and> k r"
        by simp
      then show ?thesis by blast
    next
      assume "k cs"
      with c have "c # cs = [c] @ cs \<and> [c] \<noteq> [] \<and> (\<forall>x\<in>set [c]. p x) \<and> k cs"
        by simp
      then show ?thesis by blast
    qed
  next
    assume "\<exists>a r. c # cs = a @ r \<and> a \<noteq> [] \<and> (\<forall>x\<in>set a. p x) \<and> k r"
    then obtain a r where split: "c # cs = a @ r" and ne: "a \<noteq> []"
      and all: "\<forall>x\<in>set a. p x" and k: "k r"
      by blast
    from ne obtain a' where a: "a = c # a'" and cs: "cs = a' @ r"
      using split by (cases a) auto
    show "match_plus p k (c # cs)"
    proof (cases "a' = []")
      case True
      with a cs all k show ?thesis by simp
    next
      case False
      with cs all a k have "\<exists>a r. cs = a @ r \<and> a \<noteq> [] \<and> (\<forall>x\<in>set a. p x) \<and> k r"
        by auto
      with Cons.IH a all show ?thesis by simp
    qed
  qed
qed

lemma match_char_iff: "match_char x k s \<longleftrightarrow> (\<exists>r. s = x # r \<and> k r)"
  by (cases s) auto

lemma isValidEmail_iff:
  "isValidEmail e \<longleftrightarrow>
    (\<exists>a b c. e = a @ CHR ''@'' # b @ CHR ''.'' # c \<and> a \<noteq> [] \<and> b \<noteq> [] \<and> c \<noteq> []
       \<and> (\<forall>x\<in>set (a @ b @ c). not_space_at x))"
proof -
  let ?ok = "\<lambda>s. s \<noteq> [] \<and> (\<forall>x\<in>set s. not_space_at x)"
  have tld: "match_plus not_space_at match_end s \<longleftrightarrow> ?ok s" for s
    by (auto simp: match_plus_iff match_end_def)
  have dot: "match_char (CHR ''.'') (match_plus not_space_at match_end) s \<longleftrightarrow>
      (\<exists>c. s = CHR ''.'' # c \<and> ?ok c)" for s
    by (simp add: match_char_iff tld)
  have dom: "match_plus not_space_at (match_char (CHR ''.'') (match_plus not_space_at match_end)) s
      \<longleftrightarrow> (\<exists>b c. s = b @ CHR ''.'' # c \<and> ?ok b \<and> ?ok c)" for s
    unfolding match_plus_iff [of _ _ s] dot by blast
  have at: "match_char (CHR ''@'')
      (match_plus not_space_at (match_char (CHR ''.'') (match_plus not_space_at match_end))) s
      \<longleftrightarrow> (\<exists>b c. s = CHR ''@'' # b @ CHR ''.'' # c \<and> ?ok b \<and> ?ok c)" for s
    unfolding match_char_iff [of _ _ s] dom by blast
  have "isValidEmail e \<longleftrightarrow>
      (\<exists>a b c. e = a @ CHR ''@'' # b @ CHR ''.'' # c \<and> ?ok a \<and> ?ok b \<and> ?ok c)"
    unfolding isValidEmail_def match_plus_iff [of _ _ e] at by blast
  also have "\<dots> \<longleftrightarrow> (\<exists>a b c. e = a @ CHR ''@'' # b @ CHR ''.'' # c \<and> a \<noteq> [] \<and> b \<noteq> []
      \<and> c \<noteq> [] \<and> (\<forall>x\<in>set (a @ b @ c). not_space_at x))"
    by (simp add: ball_Un conj_ac)
  finally show ?thesis .
qed

lemma match_plus_nonempty: "match_plus p k s \<Longrightarrow> s \<noteq> []"
  by (cases s) simp_all

lemma isValidEmail_nonempty: "isValidEmail e \<Longrightarrow> e \<noteq> []"
  unfolding isValidEmail_def by (rule match_plus_nonempty)

lemma catalog_nonempty:
  assumes "find (\<lambda>doc. name doc = d) doctors = Some doc" and "t \<in> set (slots doc)"
  shows "d \<noteq> [] \<and> t \<noteq> []"
  using assms by (auto simp: doctors_def split: if_splits)

lemma truthy_iff: "truthy v \<longleftrightarrow> v \<noteq> None \<and> v \<noteq> Some []"
  by (cases v) simp_all

lemma in_catalog_same_slot:
  assumes "in_catalog a" and "in_catalog b" and "timeSlot a = timeSlot b"
  shows "doctorName a = doctorName b"
  using assms by (auto simp: in_catalog_def doctors_def split: if_splits)

lemma store_ok_slot_unique:
  assumes ok: "store_ok xs" and i: "i < length xs" and j: "j < length xs"
    and eq: "timeSlot (xs ! i) = timeSlot (xs ! j)"
  shows "i = j"
proof -
  from ok i j have "in_catalog (xs ! i)" and "in_catalog (xs ! j)"
    by (simp_all add: store_ok_def list_all_length)
  with eq have "doctorName (xs ! i) = doctorName (xs ! j)"
    by (rule in_catalog_same_slot [rotated 2])
  with eq i j have "map slot_key xs ! i = map slot_key xs ! j"
    by (simp add: slot_key_def)
  moreover from ok have "distinct (map slot_key xs)"
    by (simp add: store_ok_def)
  ultimately show ?thesis
    using nth_eq_iff_index_eq [of "map slot_key xs" i j] i j by simp
qed

lemma set_remove_nth_conv:
  assumes "a \<in> set (take i xs @ drop (Suc i) xs)"
  shows "\<exists>j<length xs. j \<noteq> i \<and> a = xs ! j"
proof -
  from assms have "a \<in> set (take i xs) \<or> a \<in> set (drop (Suc i) xs)"
    by simp
  then show ?thesis
  proof
    assume "a \<in> set (take i xs)"
    then obtain j where "j < length (take i xs)" and "a = take i xs ! j"
      by (auto simp: in_set_conv_nth)
    then have "j < length xs \<and> j \<noteq> i \<and> a = xs ! j"
      by simp
    then show ?thesis by blast
  next
    assume "a \<in> set (drop (Suc i) xs)"
    then obtain j where "j < length (drop (Suc i) xs)" and "a = drop (Suc i) xs ! j"
      by (auto simp: in_set_conv_nth)
    then have "Suc i + j < length xs \<and> Suc i + j \<noteq> i \<and> a = xs ! (Suc i + j)"
      by simp
    then show ?thesis by blast
  qed
qed

section \<open>No double booking\<close>

text \<open>
  Claim C1. In every state reached from the empty array by book, cancel and modify
  requests (and the two read requests), no two appointments have the same doctor and time
  slot. Book answers with an error and leaves the array as it is when an appointment
  already holds the requested doctor and slot; modify does so when an appointment other
  than the located one holds the new slot with the located appointment's doctor.
\<close>

theorem no_double_booking:
  "distinct (map slot_key (run rs []))
   \<and> ((d, t) \<in> set (map slot_key xs) \<longrightarrow>
        is_error (fst (book fn ln em (Some t) (Some d) xs))
        \<and> snd (book fn ln em (Some t) (Some d) xs) = xs)
   \<and> (findAppointment (str_of e) ots ys = Some i \<and> j < length ys \<and> j \<noteq> i
        \<and> doctorName (ys ! j) = doctorName (ys ! i) \<and> timeSlot (ys ! j) = str_of nts \<longrightarrow>
        is_error (fst (modify e ots nts ys)) \<and> snd (modify e ots nts ys) = ys)"
proof (intro conjI impI)
  from reachable_store_ok [of rs] show "distinct (map slot_key (run rs []))"
    by (simp add: store_ok_def)
next
  assume "(d, t) \<in> set (map slot_key xs)"
  then have taken: "find (\<lambda>apt. doctorName apt = d \<and> timeSlot apt = t) xs \<noteq> None"
    by (simp add: find_None_keys)
  then show "is_error (fst (book fn ln em (Some t) (Some d) xs))"
    by (auto simp: book_def is_error_def split: option.splits)
  from taken show "snd (book fn ln em (Some t) (Some d) xs) = xs"
    by (auto simp: book_def split: option.splits)
next
  assume a: "findAppointment (str_of e) ots ys = Some i \<and> j < length ys \<and> j \<noteq> i
        \<and> doctorName (ys ! j) = doctorName (ys ! i) \<and> timeSlot (ys ! j) = str_of nts"
  then have "ys ! j \<in> set ys"
    by simp
  with a have taken:
    "list_ex (\<lambda>a. doctorName a = doctorName (ys ! i) \<and> timeSlot a = str_of nts) ys"
    unfolding list_ex_iff by blast
  with a show "is_error (fst (modify e ots nts ys))"
    by (auto simp: modify_def is_error_def Let_def split: option.splits)
  from a taken show "snd (modify e ots nts ys) = ys"
    by (auto simp: modify_def Let_def split: option.splits)
qed

theorem no_double_booking_witness:
  "distinct (map slot_key (run [john_9, jane_9, jane_2,
      Modify (Some ''jane@example.com'') (Some ''2:00 PM - 3:00 PM'') (Some ''9:00 AM - 10:00 AM'')] []))
   \<and> is_error (fst (book (Some ''Jane'') (Some ''Doe'') (Some ''jane@example.com'')
         (Some ''9:00 AM - 10:00 AM'') (Some ''Dr. Smith'') (run [john_9] [])))
   \<and> snd (book (Some ''Jane'') (Some ''Doe'') (Some ''jane@example.com'')
         (Some ''9:00 AM - 10:00 AM'') (Some ''Dr. Smith'') (run [john_9] [])) = run [john_9] []
   \<and> is_error (fst (modify (Some ''jane@example.com'') (Some ''2:00 PM - 3:00 PM'')
         (Some ''9:00 AM - 10:00 AM'') (run [john_9, jane_2] [])))
   \<and> snd (modify (Some ''jane@example.com'') (Some ''2:00 PM - 3:00 PM'')
         (Some ''9:00 AM - 10:00 AM'') (run [john_9, jane_2] [])) = run [john_9, jane_2] []"
proof -
  have h1: "(''Dr. Smith'', ''9:00 AM - 10:00 AM'') \<in> set (map slot_key (run [john_9] []))"
    by code_simp
  have h2: "findAppointment (str_of (Some ''jane@example.com'')) (Some ''2:00 PM - 3:00 PM'')
        (run [john_9, jane_2] []) = Some 1
      \<and> 0 < length (run [john_9, jane_2] []) \<and> (0::nat) \<noteq> 1
      \<and> doctorName (run [john_9, jane_2] [] ! 0) = doctorName (run [john_9, jane_2] [] ! 1)
      \<and> timeSlot (run [john_9, jane_2] [] ! 0) = str_of (Some ''9:00 AM - 10:00 AM'')"
    by code_simp
  from h1 h2 no_double_booking [of _ "''Dr. Smith''" "''9:00 AM - 10:00 AM''" "run [john_9] []"
      "Some ''Jane''" "Some ''Doe''" "Some ''jane@example.com''"
      "Some ''jane@example.com''" "Some ''2:00 PM - 3:00 PM''" "run [john_9, jane_2] []" 1 0
      "Some ''9:00 AM - 10:00 AM''"]
  show ?thesis
    by blast
qed

section \<open>Appointment ids\<close>

text \<open>
  Claim C2 says that the appointments of a reachable state have pairwise distinct ids and
  that an id is never given to a later appointment. The handler computes the id as
  \<open>appointments.length + 1\<close>, and a cancellation shortens the array: after two bookings,
  the cancellation of the first and a third booking, the array holds two appointments
  with id 2, the second of them created after the first.
\<close>

theorem ids_reused_after_cancel:
  "run [john_9, jane_10,
        Cancel (Some ''john@example.com'') (Some ''9:00 AM - 10:00 AM''),
        Book (Some ''Jim'') (Some ''Roe'') (Some ''jim@example.com'')
          (Some ''9:00 AM - 10:00 AM'') (Some ''Dr. Smith'')] [] =
     [\<lparr>patient = \<lparr>firstName = ''Jane'', lastName = ''Doe'', email = ''jane@example.com''\<rparr>,
       timeSlot = ''10:00 AM - 11:00 AM'', doctorName = ''Dr. Smith'', id_num = 2\<rparr>,
      \<lparr>patient = \<lparr>firstName = ''Jim'', lastName = ''Roe'', email = ''jim@example.com''\<rparr>,
       timeSlot = ''9:00 AM - 10:00 AM'', doctorName = ''Dr. Smith'', id_num = 2\<rparr>]"
  by code_simp

section \<open>The conflict check of modify\<close>

text \<open>
  Claim C3, as the source has it. For a modify request with its three fields set, whose
  email and original slot locate an appointment, and whose new slot is one of the slots
  of that appointment's doctor: modify answers 400 \<open>New time slot is already booked\<close>
  exactly when some appointment of the array, the located one included, has the located
  appointment's doctor and the new slot. When the original and the new slot differ, that
  is exactly when an appointment other than the located one has them; when they are the
  same slot, the located appointment has them itself and modify always answers with that
  error.
\<close>

theorem modify_conflict_iff:
  assumes "truthy em" and "truthy ots" and "truthy nts"
    and "findAppointment (str_of em) ots xs = Some i"
    and "find (\<lambda>d. name d = doctorName (xs ! i)) doctors = Some doc"
    and "str_of nts \<in> set (slots doc)"
  shows "(fst (modify em ots nts xs) = (400, Error ''New time slot is already booked'') \<longleftrightarrow>
          (\<exists>j<length xs. doctorName (xs ! j) = doctorName (xs ! i)
              \<and> timeSlot (xs ! j) = str_of nts))
    \<and> (str_of ots \<noteq> str_of nts \<longrightarrow>
         (fst (modify em ots nts xs) = (400, Error ''New time slot is already booked'') \<longleftrightarrow>
          (\<exists>j<length xs. j \<noteq> i \<and> doctorName (xs ! j) = doctorName (xs ! i)
              \<and> timeSlot (xs ! j) = str_of nts)))
    \<and> (str_of ots = str_of nts \<longrightarrow>
         fst (modify em ots nts xs) = (400, Error ''New time slot is already booked''))"
proof -
  let ?held = "\<lambda>a. doctorName a = doctorName (xs ! i) \<and> timeSlot a = str_of nts"
  from assms have conflict:
    "fst (modify em ots nts xs) = (400, Error ''New time slot is already booked'') \<longleftrightarrow>
      (\<exists>j<length xs. ?held (xs ! j))"
    by (simp add: modify_unfold list_ex_nth)
  from assms have i: "i < length xs" and own: "timeSlot (xs ! i) = str_of ots"
    by (simp_all add: findAppointment_Some)
  have other: "(\<exists>j<length xs. ?held (xs ! j)) \<longleftrightarrow> (\<exists>j<length xs. j \<noteq> i \<and> ?held (xs ! j))"
    if "str_of ots \<noteq> str_of nts"
    using that own by auto
  have self: "\<exists>j<length xs. ?held (xs ! j)" if "str_of ots = str_of nts"
    using that own i by auto
  from conflict other self show ?thesis
    by simp
qed

text \<open>
  An instance from the test suite: John holds 9:00 and Jane 2:00 with Dr. Smith, and John
  asks for 2:00.
\<close>

theorem modify_conflict_iff_witness:
  "truthy (Some ''john@example.com'') \<and> truthy (Some ''9:00 AM - 10:00 AM'')
   \<and> truthy (Some ''2:00 PM - 3:00 PM'')
   \<and> findAppointment ''john@example.com'' (Some ''9:00 AM - 10:00 AM'')
        (run [john_9, jane_2] []) = Some 0
   \<and> ''2:00 PM - 3:00 PM'' \<noteq> ''9:00 AM - 10:00 AM''
   \<and> fst (modify (Some ''john@example.com'') (Some ''9:00 AM - 10:00 AM'')
        (Some ''2:00 PM - 3:00 PM'') (run [john_9, jane_2] []))
      = (400, Error ''New time slot is already booked'')"
proof -
  let ?xs = "run [john_9, jane_2] []"
  have f: "truthy (Some ''john@example.com'')" "truthy (Some ''9:00 AM - 10:00 AM'')"
    "truthy (Some ''2:00 PM - 3:00 PM'')"
    by simp_all
  have loc: "findAppointment (str_of (Some ''john@example.com'')) (Some ''9:00 AM - 10:00 AM'') ?xs
      = Some 0"
    by code_simp
  have doc: "find (\<lambda>d. name d = doctorName (?xs ! 0)) doctors = Some (hd doctors)"
    by code_simp
  have slot: "str_of (Some ''2:00 PM - 3:00 PM'') \<in> set (slots (hd doctors))"
    by code_simp
  have other: "1 < length ?xs \<and> (1::nat) \<noteq> 0 \<and> doctorName (?xs ! 1) = doctorName (?xs ! 0)
      \<and> timeSlot (?xs ! 1) = str_of (Some ''2:00 PM - 3:00 PM'')"
    by code_simp
  have ne: "''2:00 PM - 3:00 PM'' \<noteq> ''9:00 AM - 10:00 AM''"
    by simp
  from modify_conflict_iff [OF f loc doc slot] other
  have "fst (modify (Some ''john@example.com'') (Some ''9:00 AM - 10:00 AM'')
        (Some ''2:00 PM - 3:00 PM'') ?xs) = (400, Error ''New time slot is already booked'')"
    by blast
  with f loc ne show ?thesis
    by simp
qed

text \<open>
  The claim as stated excludes the located appointment from the check. With John's
  appointment alone in the array, a request to move it from 9:00 to 9:00 is answered with
  the conflict error, although no other appointment exists.
\<close>

theorem modify_same_slot_counterexample:
  "run [john_9] [] =
     [\<lparr>patient = \<lparr>firstName = ''John'', lastName = ''Doe'', email = ''john@example.com''\<rparr>,
       timeSlot = ''9:00 AM - 10:00 AM'', doctorName = ''Dr. Smith'', id_num = 1\<rparr>]
   \<and> findAppointment ''john@example.com'' (Some ''9:00 AM - 10:00 AM'') (run [john_9] []) = Some 0
   \<and> modify (Some ''john@example.com'') (Some ''9:00 AM - 10:00 AM'')
        (Some ''9:00 AM - 10:00 AM'') (run [john_9] [])
      = ((400, Error ''New time slot is already booked''), run [john_9] [])"
  by code_simp

section \<open>A successful booking\<close>

text \<open>
  Claim C4, as the source has it. When all five fields are set, firstName and lastName are
  not empty, the email matches the pattern, doctorName is the name of a doctor of the
  catalog, timeSlot is one of that doctor's slots and no appointment of the array has
  this doctor and slot, book appends one appointment at the end of the array, with id
  the length of the array before plus one and with the patient, doctor and slot of the
  request, and answers 201 with that appointment. (A matching email, a doctor's name
  and a doctor's slot are never empty.)
\<close>

theorem book_success:
  assumes "f \<noteq> []" and "l \<noteq> []"
    and "isValidEmail e"
    and "find (\<lambda>doc. name doc = d) doctors = Some doc"
    and "t \<in> set (slots doc)"
    and "(d, t) \<notin> set (map slot_key xs)"
  shows "book (Some f) (Some l) (Some e) (Some t) (Some d) xs =
    ((201, Appt \<lparr>patient = \<lparr>firstName = f, lastName = l, email = e\<rparr>,
                 timeSlot = t, doctorName = d, id_num = length xs + 1\<rparr>),
     xs @ [\<lparr>patient = \<lparr>firstName = f, lastName = l, email = e\<rparr>,
            timeSlot = t, doctorName = d, id_num = length xs + 1\<rparr>])"
proof -
  from assms(3) have "e \<noteq> []"
    by (rule isValidEmail_nonempty)
  moreover from assms(4,5) have "d \<noteq> []" and "t \<noteq> []"
    by (simp_all add: catalog_nonempty)
  moreover from assms(6)
  have "find (\<lambda>apt. doctorName apt = d \<and> timeSlot apt = t) xs = None"
    by (simp add: find_None_keys)
  ultimately show ?thesis
    using assms(1-5) by (simp add: book_def Let_def)
qed

theorem book_success_witness:
  "''John'' \<noteq> [] \<and> ''Doe'' \<noteq> [] \<and> isValidEmail ''john@example.com''
   \<and> (''Dr. Smith'', ''9:00 AM - 10:00 AM'') \<notin> set (map slot_key [])
   \<and> book (Some ''John'') (Some ''Doe'') (Some ''john@example.com'')
        (Some ''9:00 AM - 10:00 AM'') (Some ''Dr. Smith'') [] =
      ((201, Appt \<lparr>patient = \<lparr>firstName = ''John'', lastName = ''Doe'',
                                email = ''john@example.com''\<rparr>,
                   timeSlot = ''9:00 AM - 10:00 AM'', doctorName = ''Dr. Smith'', id_num = 1\<rparr>),
       [\<lparr>patient = \<lparr>firstName = ''John'', lastName = ''Doe'', email = ''john@example.com''\<rparr>,
         timeSlot = ''9:00 AM - 10:00 AM'', doctorName = ''Dr. Smith'', id_num = 1\<rparr>])"
proof -
  have f: "''John'' \<noteq> []" and l: "''Doe'' \<noteq> []"
    by simp_all
  have e: "isValidEmail ''john@example.com''"
    by code_simp
  have d: "find (\<lambda>doc. name doc = ''Dr. Smith'') doctors = Some (hd doctors)"
    by code_simp
  have t: "''9:00 AM - 10:00 AM'' \<in> set (slots (hd doctors))"
    by code_simp
  have free: "(''Dr. Smith'', ''9:00 AM - 10:00 AM'') \<notin> set (map slot_key [])"
    by simp
  from book_success [OF f l e d t free] f l e free show ?thesis
    by simp
qed

text \<open>
  The claim as stated asks only that the fields are present. A request with the empty
  string as firstName and the other four fields as in the test suite's valid booking is
  answered 400 \<open>All fields are required\<close>; with firstName \<open>John\<close> the same request is
  answered 201.
\<close>

theorem book_empty_name_counterexample:
  "isValidEmail ''john@example.com''
   \<and> book (Some []) (Some ''Doe'') (Some ''john@example.com'')
        (Some ''9:00 AM - 10:00 AM'') (Some ''Dr. Smith'') []
      = ((400, Error ''All fields are required''), [])
   \<and> fst (fst (book (Some ''John'') (Some ''Doe'') (Some ''john@example.com'')
        (Some ''9:00 AM - 10:00 AM'') (Some ''Dr. Smith'') [])) = 201"
  by code_simp

section \<open>The order of the checks of book\<close>

text \<open>
  Claim C5, as the source has it. Book answers with the first failure in this order and
  returns the array as it was: a field that is absent or the empty string gives 400
  \<open>All fields are required\<close>; otherwise an email that does not match the pattern gives 400
  \<open>Invalid email format\<close>; otherwise a doctorName that is not in the catalog gives 404
  \<open>Doctor not found\<close>; otherwise a timeSlot that is not one of the doctor's slots gives 400
  \<open>Invalid or unavailable time slot\<close>; otherwise an appointment with the same doctor and
  slot gives 400 \<open>Time slot already booked\<close>.
\<close>

theorem book_error_order:
  "(fn \<in> {None, Some []} \<or> ln \<in> {None, Some []} \<or> em \<in> {None, Some []}
      \<or> ts \<in> {None, Some []} \<or> dn \<in> {None, Some []} \<longrightarrow>
      book fn ln em ts dn xs = ((400, Error ''All fields are required''), xs))
   \<and> (truthy fn \<and> truthy ln \<and> truthy em \<and> truthy ts \<and> truthy dn \<longrightarrow>
       (\<not> isValidEmail (str_of em) \<longrightarrow>
          book fn ln em ts dn xs = ((400, Error ''Invalid email format''), xs))
       \<and> (isValidEmail (str_of em) \<longrightarrow>
           (find (\<lambda>d. name d = str_of dn) doctors = None \<longrightarrow>
              book fn ln em ts dn xs = ((404, Error ''Doctor not found''), xs))
           \<and> (\<forall>doc. find (\<lambda>d. name d = str_of dn) doctors = Some doc \<longrightarrow>
                (str_of ts \<notin> set (slots doc) \<longrightarrow>
                   book fn ln em ts dn xs =
                     ((400, Error ''Invalid or unavailable time slot''), xs))
                \<and> (str_of ts \<in> set (slots doc)
                     \<and> (str_of dn, str_of ts) \<in> set (map slot_key xs) \<longrightarrow>
                   book fn ln em ts dn xs = ((400, Error ''Time slot already booked''), xs)))))"
proof (intro conjI impI allI)
  assume "fn \<in> {None, Some []} \<or> ln \<in> {None, Some []} \<or> em \<in> {None, Some []}
      \<or> ts \<in> {None, Some []} \<or> dn \<in> {None, Some []}"
  then have "\<not> truthy fn \<or> \<not> truthy ln \<or> \<not> truthy em \<or> \<not> truthy ts \<or> \<not> truthy dn"
    by (auto simp: truthy_iff)
  then show "book fn ln em ts dn xs = ((400, Error ''All fields are required''), xs)"
    by (simp add: book_def)
next
  assume "truthy fn \<and> truthy ln \<and> truthy em \<and> truthy ts \<and> truthy dn"
    and "\<not> isValidEmail (str_of em)"
  then show "book fn ln em ts dn xs = ((400, Error ''Invalid email format''), xs)"
    by (simp add: book_def)
next
  assume "truthy fn \<and> truthy ln \<and> truthy em \<and> truthy ts \<and> truthy dn"
    and "isValidEmail (str_of em)"
    and "find (\<lambda>d. name d = str_of dn) doctors = None"
  then show "book fn ln em ts dn xs = ((404, Error ''Doctor not found''), xs)"
    by (simp add: book_def)
next
  fix doc
  assume "truthy fn \<and> truthy ln \<and> truthy em \<and> truthy ts \<and> truthy dn"
    and "isValidEmail (str_of em)"
    and "find (\<lambda>d. name d = str_of dn) doctors = Some doc"
    and "str_of ts \<notin> set (slots doc)"
  then show "book fn ln em ts dn xs = ((400, Error ''Invalid or unavailable time slot''), xs)"
    by (simp add: book_def)
next
  fix doc
  assume fields: "truthy fn \<and> truthy ln \<and> truthy em \<and> truthy ts \<and> truthy dn"
    and valid: "isValidEmail (str_of em)"
    and doc: "find (\<lambda>d. name d = str_of dn) doctors = Some doc"
    and held: "str_of ts \<in> set (slots doc) \<and> (str_of dn, str_of ts) \<in> set (map slot_key xs)"
  from held
  have "find (\<lambda>apt. doctorName apt = str_of dn \<and> timeSlot apt = str_of ts) xs \<noteq> None"
    by (simp add: find_None_keys)
  with fields valid doc held
  show "book fn ln em ts dn xs = ((400, Error ''Time slot already booked''), xs)"
    by (auto simp: book_def)
qed

text \<open>The five failures, on the requests of the test suite.\<close>

theorem book_error_order_witness:
  "book (Some ''John'') (Some ''Doe'') None (Some ''9:00 AM - 10:00 AM'') (Some ''Dr. Smith'') []
     = ((400, Error ''All fields are required''), [])
   \<and> book (Some ''John'') (Some ''Doe'') (Some ''invalid-email'') (Some ''9:00 AM - 10:00 AM'')
       (Some ''Dr. Smith'') [] = ((400, Error ''Invalid email format''), [])
   \<and> book (Some ''John'') (Some ''Doe'') (Some ''john@example.com'') (Some ''9:00 AM - 10:00 AM'')
       (Some ''Dr. NonExistent'') [] = ((404, Error ''Doctor not found''), [])
   \<and> book (Some ''John'') (Some ''Doe'') (Some ''john@example.com'') (Some ''11:00 AM - 12:00 PM'')
       (Some ''Dr. Smith'') [] = ((400, Error ''Invalid or unavailable time slot''), [])
   \<and> book (Some ''John'') (Some ''Doe'') (Some ''john@example.com'') (Some ''9:00 AM - 10:00 AM'')
       (Some ''Dr. Smith'') (run [john_9] [])
       = ((400, Error ''Time slot already booked''), run [john_9] [])"
proof -
  have fields: "truthy (Some ''John'') \<and> truthy (Some ''Doe'') \<and> truthy (Some e)
      \<and> truthy (Some ''9:00 AM - 10:00 AM'') \<and> truthy (Some ''Dr. Smith'')"
    "truthy (Some ''John'') \<and> truthy (Some ''Doe'') \<and> truthy (Some e)
      \<and> truthy (Some ''9:00 AM - 10:00 AM'') \<and> truthy (Some ''Dr. NonExistent'')"
    "truthy (Some ''John'') \<and> truthy (Some ''Doe'') \<and> truthy (Some e)
      \<and> truthy (Some ''11:00 AM - 12:00 PM'') \<and> truthy (Some ''Dr. Smith'')"
    if "e \<noteq> []" for e
    using that by simp_all
  have bad: "\<not> isValidEmail (str_of (Some ''invalid-email''))"
    by code_simp
  have good: "isValidEmail (str_of (Some ''john@example.com''))"
    by code_simp
  have nodoc: "find (\<lambda>d. name d = str_of (Some ''Dr. NonExistent'')) doctors = None"
    by code_simp
  have doc: "find (\<lambda>d. name d = str_of (Some ''Dr. Smith'')) doctors = Some (hd doctors)"
    by code_simp
  have noslot: "str_of (Some ''11:00 AM - 12:00 PM'') \<notin> set (slots (hd doctors))"
    by code_simp
  have held: "str_of (Some ''9:00 AM - 10:00 AM'') \<in> set (slots (hd doctors))
      \<and> (str_of (Some ''Dr. Smith''), str_of (Some ''9:00 AM - 10:00 AM''))
          \<in> set (map slot_key (run [john_9] []))"
    by code_simp
  from book_error_order [of "Some ''John''" "Some ''Doe''" None "Some ''9:00 AM - 10:00 AM''"
      "Some ''Dr. Smith''" "[]"]
  have 1: "book (Some ''John'') (Some ''Doe'') None (Some ''9:00 AM - 10:00 AM'')
      (Some ''Dr. Smith'') [] = ((400, Error ''All fields are required''), [])"
    by blast
  from book_error_order [of "Some ''John''" "Some ''Doe''" "Some ''invalid-email''"
      "Some ''9:00 AM - 10:00 AM''" "Some ''Dr. Smith''" "[]"] fields(1) [of "''invalid-email''"] bad
  have 2: "book (Some ''John'') (Some ''Doe'') (Some ''invalid-email'') (Some ''9:00 AM - 10:00 AM'')
       (Some ''Dr. Smith'') [] = ((400, Error ''Invalid email format''), [])"
    by blast
  from book_error_order [of "Some ''John''" "Some ''Doe''" "Some ''john@example.com''"
      "Some ''9:00 AM - 10:00 AM''" "Some ''Dr. NonExistent''" "[]"]
    fields(2) [of "''john@example.com''"] good nodoc
  have 3: "book (Some ''John'') (Some ''Doe'') (Some ''john@example.com'')
      (Some ''9:00 AM - 10:00 AM'') (Some ''Dr. NonExistent'') []
      = ((404, Error ''Doctor not found''), [])"
    by blast
  from book_error_order [of "Some ''John''" "Some ''Doe''" "Some ''john@example.com''"
      "Some ''11:00 AM - 12:00 PM''" "Some ''Dr. Smith''" "[]"]
    fields(3) [of "''john@example.com''"] good doc noslot
  have 4: "book (Some ''John'') (Some ''Doe'') (Some ''john@example.com'')
      (Some ''11:00 AM - 12:00 PM'') (Some ''Dr. Smith'') []
      = ((400, Error ''Invalid or unavailable time slot''), [])"
    by blast
  from book_error_order [of "Some ''John''" "Some ''Doe''" "Some ''john@example.com''"
      "Some ''9:00 AM - 10:00 AM''" "Some ''Dr. Smith''" "run [john_9] []"]
    fields(1) [of "''john@example.com''"] good doc held
  have 5: "book (Some ''John'') (Some ''Doe'') (Some ''john@example.com'')
      (Some ''9:00 AM - 10:00 AM'') (Some ''Dr. Smith'') (run [john_9] [])
      = ((400, Error ''Time slot already booked''), run [john_9] [])"
    by blast
  from 1 2 3 4 5 show ?thesis
    by blast
qed

text \<open>
  The claim as stated gives the first answer only to an absent field. A request whose
  email is the empty string has all five fields and an email that does not match the
  pattern, and it is answered \<open>All fields are required\<close>, not \<open>Invalid email format\<close>.
\<close>

theorem book_empty_email_counterexample:
  "\<not> isValidEmail []
   \<and> book (Some ''John'') (Some ''Doe'') (Some []) (Some ''9:00 AM - 10:00 AM'')
       (Some ''Dr. Smith'') [] = ((400, Error ''All fields are required''), [])"
  by code_simp

section \<open>Failures leave the array as it was\<close>

text \<open>
  Claim C6. Whenever book, cancel or modify answers with an error status, the array after
  the request is the array before it.
\<close>

theorem errors_leave_store:
  "(is_error (fst (book fn ln em ts dn xs)) \<longrightarrow> snd (book fn ln em ts dn xs) = xs)
   \<and> (is_error (fst (cancel ce cs xs)) \<longrightarrow> snd (cancel ce cs xs) = xs)
   \<and> (is_error (fst (modify me ots nts xs)) \<longrightarrow> snd (modify me ots nts xs) = xs)"
proof (intro conjI impI)
  assume "is_error (fst (book fn ln em ts dn xs))"
  then show "snd (book fn ln em ts dn xs) = xs"
    by (auto simp: book_def is_error_def Let_def split: if_splits option.splits)
next
  assume "is_error (fst (cancel ce cs xs))"
  then show "snd (cancel ce cs xs) = xs"
    by (auto simp: cancel_def is_error_def split: if_splits option.splits)
next
  assume "is_error (fst (modify me ots nts xs))"
  with modify_cases [of me ots nts xs] show "snd (modify me ots nts xs) = xs"
    by (auto simp: is_error_def)
qed

theorem errors_leave_store_witness:
  "is_error (fst (book (Some ''Jane'') (Some ''Doe'') (Some ''jane@example.com'')
        (Some ''9:00 AM - 10:00 AM'') (Some ''Dr. Smith'') (run [john_9] [])))
   \<and> snd (book (Some ''Jane'') (Some ''Doe'') (Some ''jane@example.com'')
        (Some ''9:00 AM - 10:00 AM'') (Some ''Dr. Smith'') (run [john_9] [])) = run [john_9] []
   \<and> is_error (fst (cancel (Some ''nonexistent@example.com'') (Some ''9:00 AM - 10:00 AM'')
        (run [john_9] [])))
   \<and> snd (cancel (Some ''nonexistent@example.com'') (Some ''9:00 AM - 10:00 AM'')
        (run [john_9] [])) = run [john_9] []
   \<and> is_error (fst (modify (Some ''john@example.com'') (Some ''9:00 AM - 10:00 AM'')
        (Some ''2:00 PM - 3:00 PM'') (run [john_9, jane_2] [])))
   \<and> snd (modify (Some ''john@example.com'') (Some ''9:00 AM - 10:00 AM'')
        (Some ''2:00 PM - 3:00 PM'') (run [john_9, jane_2] [])) = run [john_9, jane_2] []"
proof -
  have b: "is_error (fst (book (Some ''Jane'') (Some ''Doe'') (Some ''jane@example.com'')
        (Some ''9:00 AM - 10:00 AM'') (Some ''Dr. Smith'') (run [john_9] [])))"
    by code_simp
  have c: "is_error (fst (cancel (Some ''nonexistent@example.com'') (Some ''9:00 AM - 10:00 AM'')
        (run [john_9] [])))"
    by code_simp
  have m: "is_error (fst (modify (Some ''john@example.com'') (Some ''9:00 AM - 10:00 AM'')
        (Some ''2:00 PM - 3:00 PM'') (run [john_9, jane_2] [])))"
    by code_simp
  from b c m
    errors_leave_store [of "Some ''Jane''" "Some ''Doe''" "Some ''jane@example.com''"
      "Some ''9:00 AM - 10:00 AM''" "Some ''Dr. Smith''" "run [john_9] []"
      "Some ''nonexistent@example.com''" "Some ''9:00 AM - 10:00 AM''"]
    errors_leave_store [of _ _ _ _ _ "run [john_9, jane_2] []" _ _
      "Some ''john@example.com''" "Some ''9:00 AM - 10:00 AM''" "Some ''2:00 PM - 3:00 PM''"]
  show ?thesis
    by blast
qed

section \<open>Appointments of a patient\<close>

text \<open>
  Claim C7. For every array and every email: an email that does not match the pattern
  gives 400 \<open>Invalid email format\<close>; otherwise, when no appointment has that patient
  email, 404 \<open>No appointments found\<close>; otherwise 200 with the appointments that have that
  patient email, in the order of the array, which is the order of their booking. In all
  three cases the array is returned as it was.
\<close>

theorem listByPatient_spec:
  "(\<not> isValidEmail e \<longrightarrow> listByPatient e xs = ((400, Error ''Invalid email format''), xs))
   \<and> (isValidEmail e \<and> (\<forall>a\<in>set xs. email (patient a) \<noteq> e) \<longrightarrow>
        listByPatient e xs = ((404, Error ''No appointments found''), xs))
   \<and> (isValidEmail e \<and> (\<exists>a\<in>set xs. email (patient a) = e) \<longrightarrow>
        listByPatient e xs = ((200, Appts (filter (\<lambda>a. email (patient a) = e) xs)), xs))"
proof (intro conjI impI)
  assume "\<not> isValidEmail e"
  then show "listByPatient e xs = ((400, Error ''Invalid email format''), xs)"
    by (simp add: listByPatient_def)
next
  assume a: "isValidEmail e \<and> (\<forall>a\<in>set xs. email (patient a) \<noteq> e)"
  then have "filter (\<lambda>a. email (patient a) = e) xs = []"
    by (simp add: filter_empty_conv)
  with a show "listByPatient e xs = ((404, Error ''No appointments found''), xs)"
    by (simp add: listByPatient_def)
next
  assume a: "isValidEmail e \<and> (\<exists>a\<in>set xs. email (patient a) = e)"
  then have "filter (\<lambda>a. email (patient a) = e) xs \<noteq> []"
    by (simp add: filter_empty_conv)
  with a show "listByPatient e xs = ((200, Appts (filter (\<lambda>a. email (patient a) = e) xs)), xs)"
    by (simp add: listByPatient_def Let_def)
qed

theorem listByPatient_spec_witness:
  "listByPatient ''invalid-email'' (run [john_9] [])
     = ((400, Error ''Invalid email format''), run [john_9] [])
   \<and> listByPatient ''nonexistent@example.com'' (run [john_9] [])
     = ((404, Error ''No appointments found''), run [john_9] [])
   \<and> listByPatient ''john@example.com'' (run [john_9, jane_2] [])
     = ((200, Appts (filter (\<lambda>a. email (patient a) = ''john@example.com'')
                       (run [john_9, jane_2] []))), run [john_9, jane_2] [])
   \<and> filter (\<lambda>a. email (patient a) = ''john@example.com'') (run [john_9, jane_2] [])
     = run [john_9] []"
proof -
  have bad: "\<not> isValidEmail ''invalid-email''"
    by code_simp
  have none: "isValidEmail ''nonexistent@example.com''
      \<and> (\<forall>a\<in>set (run [john_9] []). email (patient a) \<noteq> ''nonexistent@example.com'')"
    by code_simp
  have some: "isValidEmail ''john@example.com''
      \<and> (\<exists>a\<in>set (run [john_9, jane_2] []). email (patient a) = ''john@example.com'')"
    by code_simp
  have one: "filter (\<lambda>a. email (patient a) = ''john@example.com'') (run [john_9, jane_2] [])
     = run [john_9] []"
    by code_simp
  from bad none some one
    listByPatient_spec [of "''invalid-email''" "run [john_9] []"]
    listByPatient_spec [of "''nonexistent@example.com''" "run [john_9] []"]
    listByPatient_spec [of "''john@example.com''" "run [john_9, jane_2] []"]
  show ?thesis
    by blast
qed

section \<open>Cancelling\<close>

text \<open>
  Claim C8, as the source has it. For a cancel request whose two fields are set and not
  empty: when no appointment has that patient email and slot, cancel answers 404
  \<open>Appointment not found\<close> and returns the array as it was; when one has, cancel answers
  200 and removes the first such appointment, keeping all others in their order. In a
  state reached from the empty array at most one appointment holds a given slot, so
  cancelling the same email and slot twice in a row gives 200 and then 404.
\<close>

theorem cancel_spec:
  "(truthy em \<and> truthy ts
      \<and> (\<forall>a\<in>set xs. \<not> (email (patient a) = str_of em \<and> timeSlot a = str_of ts)) \<longrightarrow>
      cancel em ts xs = ((404, Error ''Appointment not found''), xs))
   \<and> (truthy em \<and> truthy ts
      \<and> (\<exists>a\<in>set xs. email (patient a) = str_of em \<and> timeSlot a = str_of ts) \<longrightarrow>
      (\<exists>i<length xs.
          email (patient (xs ! i)) = str_of em \<and> timeSlot (xs ! i) = str_of ts
        \<and> (\<forall>j<i. \<not> (email (patient (xs ! j)) = str_of em \<and> timeSlot (xs ! j) = str_of ts))
        \<and> cancel em ts xs =
            ((200, Message ''Appointment cancelled successfully''),
             take i xs @ drop (Suc i) xs)))
   \<and> (truthy em \<and> truthy ts
      \<and> (\<exists>a\<in>set (run rs []). email (patient a) = str_of em \<and> timeSlot a = str_of ts) \<longrightarrow>
        (\<forall>i<length (run rs []). \<forall>j<length (run rs []).
            timeSlot (run rs [] ! i) = str_of ts \<and> timeSlot (run rs [] ! j) = str_of ts \<longrightarrow> i = j)
      \<and> fst (cancel em ts (run rs [])) = (200, Message ''Appointment cancelled successfully'')
      \<and> cancel em ts (snd (cancel em ts (run rs []))) =
          ((404, Error ''Appointment not found''), snd (cancel em ts (run rs []))))"
proof (intro conjI impI)
  let ?P = "\<lambda>a. email (patient a) = str_of em \<and> timeSlot a = str_of ts"
  assume a: "truthy em \<and> truthy ts \<and> (\<forall>a\<in>set xs. \<not> ?P a)"
  then have "findIndex ?P xs = None"
    by (simp add: findIndex_None)
  with a show "cancel em ts xs = ((404, Error ''Appointment not found''), xs)"
    by (simp add: cancel_def)
next
  let ?P = "\<lambda>a. email (patient a) = str_of em \<and> timeSlot a = str_of ts"
  assume a: "truthy em \<and> truthy ts \<and> (\<exists>a\<in>set xs. ?P a)"
  then have "findIndex ?P xs \<noteq> None"
    by (simp add: findIndex_None)
  then obtain i where i: "findIndex ?P xs = Some i"
    by blast
  from findIndex_Some [OF i] have "i < length xs" and "?P (xs ! i)"
    and "\<forall>j<i. \<not> ?P (xs ! j)"
    by simp_all
  moreover from a i have "cancel em ts xs =
      ((200, Message ''Appointment cancelled successfully''), take i xs @ drop (Suc i) xs)"
    by (simp add: cancel_def)
  ultimately show "\<exists>i<length xs.
          email (patient (xs ! i)) = str_of em \<and> timeSlot (xs ! i) = str_of ts
        \<and> (\<forall>j<i. \<not> (email (patient (xs ! j)) = str_of em \<and> timeSlot (xs ! j) = str_of ts))
        \<and> cancel em ts xs =
            ((200, Message ''Appointment cancelled successfully''),
             take i xs @ drop (Suc i) xs)"
    by blast
next
  let ?P = "\<lambda>a. email (patient a) = str_of em \<and> timeSlot a = str_of ts"
  let ?xs = "run rs []"
  assume a: "truthy em \<and> truthy ts \<and> (\<exists>a\<in>set ?xs. ?P a)"
  then have "findIndex ?P ?xs \<noteq> None"
    by (simp add: findIndex_None)
  then obtain i where i: "findIndex ?P ?xs = Some i"
    by blast
  from findIndex_Some [OF i] have len: "i < length ?xs" and Pi: "?P (?xs ! i)"
    by simp_all
  from a i have first: "cancel em ts ?xs =
      ((200, Message ''Appointment cancelled successfully''), take i ?xs @ drop (Suc i) ?xs)"
    by (simp add: cancel_def)
  have "\<not> ?P b" if "b \<in> set (take i ?xs @ drop (Suc i) ?xs)" for b
  proof
    assume Pb: "?P b"
    from set_remove_nth_conv [OF that]
    obtain j where j: "j < length ?xs" "j \<noteq> i" "b = ?xs ! j"
      by blast
    with Pi Pb have "timeSlot (?xs ! j) = timeSlot (?xs ! i)"
      by simp
    with reachable_store_ok [of rs] j len have "j = i"
      by (simp add: store_ok_slot_unique)
    with j show False
      by simp
  qed
  then have "findIndex ?P (take i ?xs @ drop (Suc i) ?xs) = None"
    unfolding findIndex_None by blast
  with a have second: "cancel em ts (take i ?xs @ drop (Suc i) ?xs) =
      ((404, Error ''Appointment not found''), take i ?xs @ drop (Suc i) ?xs)"
    by (simp add: cancel_def)
  from reachable_store_ok [of rs]
  show "\<forall>i<length ?xs. \<forall>j<length ?xs.
      timeSlot (?xs ! i) = str_of ts \<and> timeSlot (?xs ! j) = str_of ts \<longrightarrow> i = j"
    by (simp add: store_ok_slot_unique)
  from first show "fst (cancel em ts ?xs) = (200, Message ''Appointment cancelled successfully'')"
    by simp
  from first second show "cancel em ts (snd (cancel em ts ?xs)) =
      ((404, Error ''Appointment not found''), snd (cancel em ts ?xs))"
    by simp
qed

theorem cancel_spec_witness:
  "cancel (Some ''nonexistent@example.com'') (Some ''9:00 AM - 10:00 AM'') (run [john_9, jane_2] [])
     = ((404, Error ''Appointment not found''), run [john_9, jane_2] [])
   \<and> (\<exists>i<length (run [john_9, jane_2] []).
        cancel (Some ''john@example.com'') (Some ''9:00 AM - 10:00 AM'') (run [john_9, jane_2] [])
        = ((200, Message ''Appointment cancelled successfully''),
           take i (run [john_9, jane_2] []) @ drop (Suc i) (run [john_9, jane_2] [])))
   \<and> fst (cancel (Some ''john@example.com'') (Some ''9:00 AM - 10:00 AM'')
        (run [john_9, jane_2] [])) = (200, Message ''Appointment cancelled successfully'')
   \<and> cancel (Some ''john@example.com'') (Some ''9:00 AM - 10:00 AM'')
        (snd (cancel (Some ''john@example.com'') (Some ''9:00 AM - 10:00 AM'')
           (run [john_9, jane_2] [])))
      = ((404, Error ''Appointment not found''),
         snd (cancel (Some ''john@example.com'') (Some ''9:00 AM - 10:00 AM'')
           (run [john_9, jane_2] [])))"
proof -
  let ?xs = "run [john_9, jane_2] []"
  have none: "truthy (Some ''nonexistent@example.com'') \<and> truthy (Some ''9:00 AM - 10:00 AM'')
      \<and> (\<forall>a\<in>set ?xs. \<not> (email (patient a) = str_of (Some ''nonexistent@example.com'')
            \<and> timeSlot a = str_of (Some ''9:00 AM - 10:00 AM'')))"
    by code_simp
  have some: "truthy (Some ''john@example.com'') \<and> truthy (Some ''9:00 AM - 10:00 AM'')
      \<and> (\<exists>a\<in>set ?xs. email (patient a) = str_of (Some ''john@example.com'')
            \<and> timeSlot a = str_of (Some ''9:00 AM - 10:00 AM''))"
    by code_simp
  from none cancel_spec [of "Some ''nonexistent@example.com''" "Some ''9:00 AM - 10:00 AM''" ?xs]
  have 1: "cancel (Some ''nonexistent@example.com'') (Some ''9:00 AM - 10:00 AM'') ?xs
     = ((404, Error ''Appointment not found''), ?xs)"
    by blast
  from some cancel_spec [of "Some ''john@example.com''" "Some ''9:00 AM - 10:00 AM''" ?xs
      "[john_9, jane_2]"]
  have 2: "(\<exists>i<length ?xs.
        cancel (Some ''john@example.com'') (Some ''9:00 AM - 10:00 AM'') ?xs
        = ((200, Message ''Appointment cancelled successfully''),
           take i ?xs @ drop (Suc i) ?xs))"
    and 3: "fst (cancel (Some ''john@example.com'') (Some ''9:00 AM - 10:00 AM'') ?xs)
        = (200, Message ''Appointment cancelled successfully'')"
    and 4: "cancel (Some ''john@example.com'') (Some ''9:00 AM - 10:00 AM'')
        (snd (cancel (Some ''john@example.com'') (Some ''9:00 AM - 10:00 AM'') ?xs))
      = ((404, Error ''Appointment not found''),
         snd (cancel (Some ''john@example.com'') (Some ''9:00 AM - 10:00 AM'') ?xs))"
    by blast+
  from 1 2 3 4 show ?thesis
    by blast
qed

text \<open>
  The claim as stated asks only that the two fields are present. A request with the empty
  string as email, which no appointment matches, is answered 400
  \<open>Email and time slot are required\<close>, not 404.
\<close>

theorem cancel_empty_email_counterexample:
  "cancel (Some []) (Some ''9:00 AM - 10:00 AM'') []
     = ((400, Error ''Email and time slot are required''), [])"
  by code_simp

section \<open>What a successful modify changes\<close>

text \<open>
  Claim C9. When modify answers 200, the array has the same length and the same elements
  as before except at the position of the located appointment; there the id, the patient
  and the doctor are those of the located appointment and the slot is the new slot; the
  body of the answer is that element.
\<close>

theorem modify_frame:
  assumes "fst (fst (modify em ots nts xs)) = 200"
  shows "\<exists>i<length xs.
      findAppointment (str_of em) ots xs = Some i
    \<and> fst (modify em ots nts xs) = (200, Appt (snd (modify em ots nts xs) ! i))
    \<and> snd (modify em ots nts xs) = xs[i := (xs ! i)\<lparr>timeSlot := str_of nts\<rparr>]
    \<and> length (snd (modify em ots nts xs)) = length xs
    \<and> (\<forall>j<length xs. j \<noteq> i \<longrightarrow> snd (modify em ots nts xs) ! j = xs ! j)
    \<and> id_num (snd (modify em ots nts xs) ! i) = id_num (xs ! i)
    \<and> patient (snd (modify em ots nts xs) ! i) = patient (xs ! i)
    \<and> doctorName (snd (modify em ots nts xs) ! i) = doctorName (xs ! i)
    \<and> timeSlot (snd (modify em ots nts xs) ! i) = str_of nts"
proof -
  from modify_cases [of em ots nts xs] assms
  obtain i where loc: "findAppointment (str_of em) ots xs = Some i"
    and res: "modify em ots nts xs =
          ((200, Appt ((xs ! i)\<lparr>timeSlot := str_of nts\<rparr>)),
           xs[i := (xs ! i)\<lparr>timeSlot := str_of nts\<rparr>])"
    by (auto simp: is_error_def)
  from loc have i: "i < length xs"
    by (simp add: findAppointment_Some)
  with loc res show ?thesis
    by (intro exI [of _ i]) simp
qed

theorem modify_frame_witness:
  "fst (fst (modify (Some ''john@example.com'') (Some ''9:00 AM - 10:00 AM'')
        (Some ''2:00 PM - 3:00 PM'') (run [john_9, jane_10] []))) = 200
   \<and> (\<exists>i<length (run [john_9, jane_10] []).
        findAppointment ''john@example.com'' (Some ''9:00 AM - 10:00 AM'')
          (run [john_9, jane_10] []) = Some i
      \<and> snd (modify (Some ''john@example.com'') (Some ''9:00 AM - 10:00 AM'')
          (Some ''2:00 PM - 3:00 PM'') (run [john_9, jane_10] []))
        = (run [john_9, jane_10] [])
            [i := (run [john_9, jane_10] [] ! i)\<lparr>timeSlot := ''2:00 PM - 3:00 PM''\<rparr>])"
proof -
  have ok: "fst (fst (modify (Some ''john@example.com'') (Some ''9:00 AM - 10:00 AM'')
        (Some ''2:00 PM - 3:00 PM'') (run [john_9, jane_10] []))) = 200"
    by code_simp
  from modify_frame [OF ok] ok show ?thesis
    by auto
qed

section \<open>Empty fields of a booking\<close>

text \<open>
  Claim C10. When at least one of firstName, lastName, email, timeSlot, doctorName is the
  empty string, book answers 400 \<open>All fields are required\<close>, as for an absent field; in
  particular the answer is never \<open>Invalid email format\<close>.
\<close>

theorem book_empty_field:
  assumes "fn = Some [] \<or> ln = Some [] \<or> em = Some [] \<or> ts = Some [] \<or> dn = Some []"
  shows "book fn ln em ts dn xs = ((400, Error ''All fields are required''), xs)
    \<and> fst (book fn ln em ts dn xs) \<noteq> (400, Error ''Invalid email format'')"
proof -
  from assms
  have "\<not> truthy fn \<or> \<not> truthy ln \<or> \<not> truthy em \<or> \<not> truthy ts \<or> \<not> truthy dn"
    by auto
  then show ?thesis
    by (simp add: book_def)
qed

theorem book_empty_field_witness:
  "book (Some ''John'') (Some ''Doe'') (Some []) (Some ''9:00 AM - 10:00 AM'')
      (Some ''Dr. Smith'') [] = ((400, Error ''All fields are required''), [])
   \<and> fst (book (Some ''John'') (Some ''Doe'') (Some []) (Some ''9:00 AM - 10:00 AM'')
      (Some ''Dr. Smith'') []) \<noteq> (400, Error ''Invalid email format'')"
proof -
  have "Some ''John'' = Some [] \<or> Some ''Doe'' = Some [] \<or> Some [] = Some ([]::string)
      \<or> Some ''9:00 AM - 10:00 AM'' = Some [] \<or> Some ''Dr. Smith'' = Some []"
    by simp
  then show ?thesis
    by (rule book_empty_field)
qed

end
